theory Spec2Isabelle
  imports Main "HOL-Library.AList"
begin

section \<open>Configuration values and lodash's merge\<close>

text \<open>
  Tenant configurations are JSON data (the FileSystem provider loads \<^verbatim>\<open>*.tenant.json\<close>
  files, the InMemoryData provider takes object literals). A JavaScript array is an
  object whose keys are the decimal indices, so both are a list of properties in
  insertion order, tagged with the kind of the container.
\<close>

datatype kind = Plain | Array

datatype json =
    JNull
  | JBool bool
  | JNum int
  | JStr string
  | JObj kind "(string \<times> json) list"

type_synonym props = "(string \<times> json) list"

text \<open>JavaScript truthiness of a JSON value (every object and array is truthy).\<close>

fun truthy :: "json \<Rightarrow> bool" where
  "truthy JNull = False"
| "truthy (JBool b) = b"
| "truthy (JNum n) = (n \<noteq> 0)"
| "truthy (JStr s) = (s \<noteq> [])"
| "truthy (JObj k ps) = True"

text \<open>\<^verbatim>\<open>object[key] = value\<close> on own properties: replace in place, or append a new key.\<close>

fun assign :: "props \<Rightarrow> string \<Rightarrow> json \<Rightarrow> props" where
  "assign [] k v = [(k, v)]"
| "assign ((k', v') # ps) k v =
     (if k' = k then (k, v) # ps else (k', v') # assign ps k v)"

text \<open>
  lodash's \<^verbatim>\<open>baseMerge(object, source)\<close> on JSON data. For every key of the source, in
  order: a source value that is an array or a plain object is merged recursively
  (\<^verbatim>\<open>baseMergeDeep\<close>) into the destination's value when that is a container of a
  fitting kind, and into a fresh empty container otherwise; any other source value is
  assigned. \<open>merge_value ov sv\<close> is the value stored under the key, \<open>ov\<close> being the
  destination's value there (\<open>None\<close> when the key is missing).

  lodash is a dependency, not part of the repository; this follows its documented
  behaviour ("array and plain object properties are merged recursively, other value
  types are overridden by assignment") on the values JSON has. JSON has no
  \<^verbatim>\<open>undefined\<close> property values, and a plain object is taken not to be array-like (no
  numeric \<^verbatim>\<open>length\<close> property facing an array). Property order is insertion order.
\<close>

fun merge_props :: "props \<Rightarrow> props \<Rightarrow> props"
  and merge_value :: "json option \<Rightarrow> json \<Rightarrow> json" where
  "merge_props dps [] = dps"
| "merge_props dps ((k, sv) # sps) =
     merge_props (assign dps k (merge_value (map_of dps k) sv)) sps"
| "merge_value ov (JObj Array sps) =
     (case ov of
        Some (JObj Array dps) \<Rightarrow> JObj Array (merge_props dps sps)
      | _ \<Rightarrow> JObj Array (merge_props [] sps))"
| "merge_value ov (JObj Plain sps) =
     (case ov of
        Some (JObj k dps) \<Rightarrow> JObj k (merge_props dps sps)
      | _ \<Rightarrow> JObj Plain (merge_props [] sps))"
| "merge_value ov JNull = JNull"
| "merge_value ov (JBool b) = JBool b"
| "merge_value ov (JNum n) = JNum n"
| "merge_value ov (JStr s) = JStr s"

text \<open>
  The keys and values lodash enumerates for a top-level source: the properties of an
  object or array, the indexed characters of a string, nothing for another primitive.
\<close>

definition digit_char :: "nat \<Rightarrow> char" where
  "digit_char n = ''0123456789'' ! (n mod 10)"

fun index_key :: "nat \<Rightarrow> string" where
  "index_key n = (if n < 10 then [digit_char n] else index_key (n div 10) @ [digit_char (n mod 10)])"

fun indexed_chars :: "nat \<Rightarrow> string \<Rightarrow> props" where
  "indexed_chars i [] = []"
| "indexed_chars i (c # cs) = (index_key i, JStr [c]) # indexed_chars (Suc i) cs"

fun source_props :: "json \<Rightarrow> props" where
  "source_props (JObj k ps) = ps"
| "source_props (JStr s) = indexed_chars 0 s"
| "source_props v = []"

text \<open>
  \<^verbatim>\<open>_.merge({}, defaultConfig, config)\<close>: the sources are merged, left to right, into a
  fresh empty object; a falsy source (\<^verbatim>\<open>undefined\<close> is \<open>None\<close>) is skipped. Only the fresh
  object is written to.
\<close>

definition merge_source :: "props \<Rightarrow> json option \<Rightarrow> props" where
  "merge_source obj src =
     (case src of
        None \<Rightarrow> obj
      | Some v \<Rightarrow> if truthy v then merge_props obj (source_props v) else obj)"

definition lodash_merge :: "json option \<Rightarrow> props \<Rightarrow> props" where
  "lodash_merge defaultConfig cfg =
     merge_source (merge_source [] defaultConfig) (Some (JObj Plain cfg))"

section \<open>Tenant\<close>

text \<open>What a database factory may return: any JavaScript value; objects by reference.\<close>

datatype handle =
    HUndefined
  | HNull
  | HBool bool
  | HNum int
  | HStr string
  | HObject nat

fun truthy_handle :: "handle \<Rightarrow> bool" where
  "truthy_handle HUndefined = False"
| "truthy_handle HNull = False"
| "truthy_handle (HBool b) = b"
| "truthy_handle (HNum n) = (n \<noteq> 0)"
| "truthy_handle (HStr s) = (s \<noteq> [])"
| "truthy_handle (HObject r) = True"

text \<open>
  Every error the library raises is an \<^verbatim>\<open>Error\<close> told apart by its message;
  \<open>Thrown\<close> is an exception of a caller-supplied callback, \<open>TypeError\<close> the one of
  the JavaScript runtime.
\<close>

datatype error =
    MissingProviders                    \<comment> \<open>landlord: Missing {options.providers}.\<close>
  | ProviderMissingLoadTenants string   \<comment> \<open>landlord: Provider <typeof> missing {provider.loadTenants}.\<close>
  | NoConfigsFound                      \<comment> \<open>landlord: No configs were found.\<close>
  | MissingTenantConfiguration          \<comment> \<open>Missing tenant configuration.\<close>
  | DatabaseAlreadyAttached             \<comment> \<open>tenant: Database already attached.\<close>
  | TypeError
  | Thrown string

datatype error_kind = InvalidArgument | NoTenantsFound | AlreadyAttached | Foreign

fun kind_of :: "error \<Rightarrow> error_kind" where
  "kind_of MissingProviders = InvalidArgument"
| "kind_of (ProviderMissingLoadTenants ty) = InvalidArgument"
| "kind_of MissingTenantConfiguration = InvalidArgument"
| "kind_of NoConfigsFound = NoTenantsFound"
| "kind_of DatabaseAlreadyAttached = AlreadyAttached"
| "kind_of TypeError = Foreign"
| "kind_of (Thrown m) = Foreign"

text \<open>A finalizer is called with the handle; \<open>Some m\<close> is the exception it throws.\<close>

type_synonym finalizer = "handle \<Rightarrow> string option"
type_synonym factory = "json \<Rightarrow> string + handle"

record tenant =
  name :: string
  config :: props
  db :: handle
  dbFinalizer :: "finalizer option"

definition new_Tenant :: "string \<Rightarrow> props \<Rightarrow> error + tenant" where
  "new_Tenant n c =
     (if n = [] then Inl MissingTenantConfiguration
      else Inr \<lparr>name = n, config = c, db = HNull, dbFinalizer = None\<rparr>)"

definition applyDefaults :: "json option \<Rightarrow> tenant \<Rightarrow> tenant" where
  "applyDefaults defaultConfig t = t\<lparr>config := lodash_merge defaultConfig (config t)\<rparr>"

text \<open>On an error the record is as it was: the throw comes before both assignments.\<close>

definition attachDatabase :: "factory \<Rightarrow> finalizer option \<Rightarrow> json \<Rightarrow> tenant \<Rightarrow> error + tenant" where
  "attachDatabase fac fin cfg t =
     (if truthy_handle (db t) then Inl DatabaseAlreadyAttached
      else case fac cfg of
             Inl m \<Rightarrow> Inl (Thrown m)
           | Inr h \<Rightarrow> Inr (t\<lparr>db := h, dbFinalizer := fin\<rparr>))"

text \<open>
  \<open>detachDatabase\<close> returns the exception that escapes (if any), the record afterwards
  and the trace of finalizer calls (the handle each was given). When the finalizer
  throws, the two assignments after the call are not reached.
\<close>

definition detachDatabase :: "tenant \<Rightarrow> handle list \<Rightarrow> error option \<times> tenant \<times> handle list" where
  "detachDatabase t calls =
     (case (if truthy_handle (db t) then dbFinalizer t else None) of
        Some fin \<Rightarrow>
          (case fin (db t) of
             Some m \<Rightarrow> (Some (Thrown m), t, calls @ [db t])
           | None \<Rightarrow> (None, t\<lparr>db := HNull, dbFinalizer := None\<rparr>, calls @ [db t]))
      | None \<Rightarrow> (None, t\<lparr>db := HNull, dbFinalizer := None\<rparr>, calls))"

section \<open>The tenant collection, a JavaScript object\<close>

text \<open>
  \<^verbatim>\<open>const tenants = {}\<close> is an ordinary object: it has own properties (in insertion
  order) and a prototype, \<^verbatim>\<open>Object.prototype\<close> at first (\<open>proto = None\<close>). The operators
  \<^verbatim>\<open>in\<close> and \<^verbatim>\<open>tenants[key]\<close> also see inherited properties, \<^verbatim>\<open>Object.keys\<close> and
  \<^verbatim>\<open>Object.values\<close> see own ones only, and an assignment to the key \<^verbatim>\<open>__proto__\<close> runs the
  inherited setter, which replaces the prototype by the assigned object.
\<close>

record tenants =
  own :: "(string \<times> tenant) list"
  proto :: "tenant option"

definition empty_tenants :: tenants where
  "empty_tenants = \<lparr>own = [], proto = None\<rparr>"

text \<open>The methods of \<^verbatim>\<open>Object.prototype\<close>, and those of \<^verbatim>\<open>Tenant.prototype\<close>.\<close>

definition object_prototype_functions :: "string list" where
  "object_prototype_functions =
     [''constructor'', ''__defineGetter__'', ''__defineSetter__'', ''hasOwnProperty'',
      ''__lookupGetter__'', ''__lookupSetter__'', ''isPrototypeOf'', ''propertyIsEnumerable'',
      ''toString'', ''valueOf'', ''toLocaleString'']"

definition tenant_prototype_functions :: "string list" where
  "tenant_prototype_functions =
     [''constructor'', ''applyDefaults'', ''attachDatabase'', ''detachDatabase'']"

text \<open>What a property read on the collection can give.\<close>

datatype jsvalue =
    VTenant tenant
  | VFunction string
  | VObjectPrototype
  | VString string
  | VConfig props
  | VHandle handle
  | VFinalizer "finalizer option"

fun truthy_value :: "jsvalue \<Rightarrow> bool" where
  "truthy_value (VTenant t) = True"
| "truthy_value (VFunction f) = True"
| "truthy_value VObjectPrototype = True"
| "truthy_value (VString s) = (s \<noteq> [])"
| "truthy_value (VConfig c) = True"
| "truthy_value (VHandle h) = truthy_handle h"
| "truthy_value (VFinalizer f) = (f \<noteq> None)"

text \<open>
  A property inherited from a Tenant instance that has become the prototype: its own
  fields, then the getters and methods of its class. A getter runs with the collection
  as \<^verbatim>\<open>this\<close> and reads the field through the same chain.
\<close>

definition tenant_member :: "tenant \<Rightarrow> string \<Rightarrow> jsvalue option" where
  "tenant_member t k =
     (if k = ''_name'' \<or> k = ''name'' then Some (VString (name t))
      else if k = ''_config'' \<or> k = ''config'' then Some (VConfig (config t))
      else if k = ''_db'' \<or> k = ''db'' then Some (VHandle (db t))
      else if k = ''_dbFinalizer'' then Some (VFinalizer (dbFinalizer t))
      else if k \<in> set tenant_prototype_functions then Some (VFunction k)
      else None)"

definition object_member :: "string \<Rightarrow> jsvalue option" where
  "object_member k = (if k \<in> set object_prototype_functions then Some (VFunction k) else None)"

text \<open>\<^verbatim>\<open>tenants[key]\<close>; \<open>None\<close> is \<^verbatim>\<open>undefined\<close>.\<close>

definition js_get :: "tenants \<Rightarrow> string \<Rightarrow> jsvalue option" where
  "js_get ts k =
     (case map_of (own ts) k of
        Some t \<Rightarrow> Some (VTenant t)
      | None \<Rightarrow>
          (case proto ts of
             None \<Rightarrow> if k = ''__proto__'' then Some VObjectPrototype else object_member k
           | Some p \<Rightarrow>
               if k = ''__proto__'' then Some (VTenant p)
               else (case tenant_member p k of
                       Some v \<Rightarrow> Some v
                     | None \<Rightarrow> object_member k)))"

text \<open>\<^verbatim>\<open>key in tenants\<close>.\<close>

definition js_in :: "string \<Rightarrow> tenants \<Rightarrow> bool" where
  "js_in k ts = (js_get ts k \<noteq> None)"

text \<open>
  \<^verbatim>\<open>value.config\<close> for a value read from the collection: a member access on
  \<^verbatim>\<open>null\<close> or \<^verbatim>\<open>undefined\<close> is a TypeError, a missing property is \<^verbatim>\<open>undefined\<close>. A
  function, a string and a database handle are taken to have no \<^verbatim>\<open>config\<close> property.
\<close>

fun config_of :: "jsvalue \<Rightarrow> error + json option" where
  "config_of (VTenant t) = Inr (Some (JObj Plain (config t)))"
| "config_of (VFunction f) = Inr None"
| "config_of VObjectPrototype = Inr None"
| "config_of (VString s) = Inr None"
| "config_of (VConfig c) = Inr (map_of c ''config'')"
| "config_of (VHandle h) =
     (if h = HNull \<or> h = HUndefined then Inl TypeError else Inr None)"
| "config_of (VFinalizer f) = (if f = None then Inl TypeError else Inr None)"

fun put :: "(string \<times> tenant) list \<Rightarrow> string \<Rightarrow> tenant \<Rightarrow> (string \<times> tenant) list" where
  "put [] k t = [(k, t)]"
| "put ((k', t') # ps) k t =
     (if k' = k then (k, t) # ps else (k', t') # put ps k t)"

text \<open>
  \<^verbatim>\<open>tenants[key] = tenant\<close> in strict code (a class body is strict): the
  \<^verbatim>\<open>__proto__\<close> setter replaces the prototype; a key that is inherited as a getter
  without a setter (\<^verbatim>\<open>name\<close>, \<^verbatim>\<open>config\<close>, \<^verbatim>\<open>db\<close> of a Tenant prototype) is a TypeError; any
  other key becomes or stays an own property.
\<close>

definition js_set :: "tenants \<Rightarrow> string \<Rightarrow> tenant \<Rightarrow> error + tenants" where
  "js_set ts k t =
     (if map_of (own ts) k \<noteq> None then Inr (ts\<lparr>own := put (own ts) k t\<rparr>)
      else if k = ''__proto__'' then Inr (ts\<lparr>proto := Some t\<rparr>)
      else if proto ts \<noteq> None \<and> (k = ''name'' \<or> k = ''config'' \<or> k = ''db'')
        then Inl TypeError
      else Inr (ts\<lparr>own := put (own ts) k t\<rparr>))"

section \<open>Landlord\<close>

text \<open>
  An entry of \<^verbatim>\<open>options.providers\<close> is an object with a \<^verbatim>\<open>loadTenants\<close> function, which
  returns its tenants or throws, or a value without one (\<open>NonConforming\<close>, with its
  \<^verbatim>\<open>typeof\<close>). \<^verbatim>\<open>options.providers\<close> itself is missing, one entry, or an array.
\<close>

datatype provider =
    NonConforming string
  | Source "string + tenant list"

datatype providers_option =
    Absent
  | Single provider
  | Many "provider list"

fun validate :: "provider list \<Rightarrow> error option" where
  "validate [] = None"
| "validate (NonConforming ty # ps) = Some (ProviderMissingLoadTenants ty)"
| "validate (Source r # ps) = validate ps"

text \<open>The body of the inner \<^verbatim>\<open>forEach\<close>: one tenant of one provider.\<close>

definition add_tenant :: "tenants \<Rightarrow> tenant \<Rightarrow> error + tenants" where
  "add_tenant ts t =
     (case js_get ts (name t) of
        Some v \<Rightarrow>
          (case config_of v of
             Inl e \<Rightarrow> Inl e
           | Inr c \<Rightarrow> js_set ts (name t) (applyDefaults c t))
      | None \<Rightarrow> js_set ts (name t) t)"

fun add_tenants :: "tenants \<Rightarrow> tenant list \<Rightarrow> error + tenants" where
  "add_tenants ts [] = Inr ts"
| "add_tenants ts (t # rest) =
     (case add_tenant ts t of
        Inl e \<Rightarrow> Inl e
      | Inr ts' \<Rightarrow> add_tenants ts' rest)"

text \<open>The outer \<^verbatim>\<open>forEach\<close>: the providers in the order they were supplied.\<close>

fun load_providers :: "tenants \<Rightarrow> provider list \<Rightarrow> error + tenants" where
  "load_providers ts [] = Inr ts"
| "load_providers ts (NonConforming ty # ps) = Inl TypeError"
| "load_providers ts (Source (Inl m) # ps) = Inl (Thrown m)"
| "load_providers ts (Source (Inr loaded) # ps) =
     (case add_tenants ts loaded of
        Inl e \<Rightarrow> Inl e
      | Inr ts' \<Rightarrow> load_providers ts' ps)"

text \<open>
  \<^verbatim>\<open>tenants._default_ ? tenants._default_.config : null\<close>, then the early return
  when that is falsy, then \<^verbatim>\<open>applyDefaults\<close> on every own value.
\<close>

definition default_config :: "tenants \<Rightarrow> error + json option" where
  "default_config ts =
     (case js_get ts ''_default_'' of
        None \<Rightarrow> Inr None
      | Some v \<Rightarrow> if truthy_value v then config_of v else Inr None)"

definition apply_default :: "tenants \<Rightarrow> error + tenants" where
  "apply_default ts =
     (case default_config ts of
        Inl e \<Rightarrow> Inl e
      | Inr None \<Rightarrow> Inr ts
      | Inr (Some d) \<Rightarrow>
          if truthy d
          then Inr (ts\<lparr>own := map (\<lambda>(k, t). (k, applyDefaults (Some d) t)) (own ts)\<rparr>)
          else Inr ts)"

definition loadTenants :: "providers_option \<Rightarrow> error + tenants" where
  "loadTenants opts =
     (case opts of
        Absent \<Rightarrow> Inl MissingProviders
      | _ \<Rightarrow>
          (let providers = (case opts of Many ps \<Rightarrow> ps | Single p \<Rightarrow> [p] | Absent \<Rightarrow> [])
           in case validate providers of
                Some e \<Rightarrow> Inl e
              | None \<Rightarrow>
                  (case load_providers empty_tenants providers of
                     Inl e \<Rightarrow> Inl e
                   | Inr ts \<Rightarrow>
                       if own ts = [] then Inl NoConfigsFound else apply_default ts)))"

text \<open>
  \<^verbatim>\<open>Landlord.detachDatabases\<close>: \<^verbatim>\<open>detachDatabase\<close> on every own value, in order. An
  exception leaves the loop; the records before it are detached, the others untouched.
\<close>

fun detach_all ::
  "(string \<times> tenant) list \<Rightarrow> handle list \<Rightarrow> error option \<times> (string \<times> tenant) list \<times> handle list" where
  "detach_all [] calls = (None, [], calls)"
| "detach_all ((k, t) # rest) calls =
     (case detachDatabase t calls of
        (Some e, t', calls') \<Rightarrow> (Some e, (k, t') # rest, calls')
      | (None, t', calls') \<Rightarrow>
          (case detach_all rest calls' of
             (r, rest', calls'') \<Rightarrow> (r, (k, t') # rest', calls'')))"

definition detachDatabases :: "tenants \<Rightarrow> handle list \<Rightarrow> error option \<times> tenants \<times> handle list" where
  "detachDatabases ts calls =
     (case detach_all (own ts) calls of
        (r, own', calls') \<Rightarrow> (r, ts\<lparr>own := own'\<rparr>, calls'))"

section \<open>ExpressLandlord: the middleware\<close>

text \<open>
  The request as the middleware reads it: \<^verbatim>\<open>req.hostname\<close>, \<^verbatim>\<open>req.header(name)\<close>
  (both may be \<^verbatim>\<open>undefined\<close>), and the properties the middleware has set on it.
\<close>

record request =
  hostname :: "string option"
  header :: "string \<Rightarrow> string option"
  decorations :: "(string \<times> jsvalue) list"

record req_options =
  path :: string
  tenantHeader :: "string option"

text \<open>A property key is a string: \<^verbatim>\<open>undefined\<close> as a key is the string "undefined".\<close>

definition property_key :: "string option \<Rightarrow> string" where
  "property_key k = (case k of None \<Rightarrow> ''undefined'' | Some s \<Rightarrow> s)"

definition lookup_key :: "req_options \<Rightarrow> request \<Rightarrow> string option" where
  "lookup_key opts req =
     (case tenantHeader opts of
        None \<Rightarrow> hostname req
      | Some h \<Rightarrow> if h = [] then hostname req else header req h)"

text \<open>What the middleware hands to \<^verbatim>\<open>next\<close>: an HTTP error, or nothing (go on).\<close>

datatype outcome =
    NextError nat string
  | Next request

definition bindTenantToRequest :: "tenants \<Rightarrow> req_options \<Rightarrow> request \<Rightarrow> outcome" where
  "bindTenantToRequest ts opts req =
     (case js_get ts (property_key (lookup_key opts req)) of
        None \<Rightarrow> NextError 403 ''Invalid tenant.''
      | Some v \<Rightarrow>
          if truthy_value v
          then Next (req\<lparr>decorations := AList.update (path opts) v (decorations req)\<rparr>)
          else NextError 403 ''Invalid tenant.'')"

section \<open>Notions used by the statements\<close>

text \<open>A record after a completed detach.\<close>

definition cleared :: "tenant \<Rightarrow> tenant" where
  "cleared t = t\<lparr>db := HNull, dbFinalizer := None\<rparr>"

text \<open>A record whose finalizer, if \<open>detachDatabase\<close> calls it, returns normally.\<close>

definition quiet :: "tenant \<Rightarrow> bool" where
  "quiet t =
     (case dbFinalizer t of
        None \<Rightarrow> True
      | Some fin \<Rightarrow> truthy_handle (db t) \<longrightarrow> fin (db t) = None)"

text \<open>The finalizer calls \<open>detachDatabase\<close> makes on a record.\<close>

definition finalized :: "tenant \<Rightarrow> handle list" where
  "finalized t = (if truthy_handle (db t) \<and> dbFinalizer t \<noteq> None then [db t] else [])"

text \<open>
  A JavaScript object has each key once, at every level: the property lists that stand
  for objects have distinct keys.
\<close>

fun wf_json :: "json \<Rightarrow> bool" where
  "wf_json (JObj k ps) = (distinct (map fst ps) \<and> (\<forall>(key, v) \<in> set ps. wf_json v))"
| "wf_json v = True"

definition wf_props :: "props \<Rightarrow> bool" where
  "wf_props ps = (distinct (map fst ps) \<and> (\<forall>(key, v) \<in> set ps. wf_json v))"



text \<open>
  The merge step in the words of the specification: a record with a new name is
  inserted; a record whose name exists has its config merged on top of the stored
  one and replaces the stored record.
\<close>

definition merge_into :: "(string \<times> tenant) list \<Rightarrow> tenant \<Rightarrow> (string \<times> tenant) list" where
  "merge_into acc t =
     (case map_of acc (name t) of
        Some old \<Rightarrow> put acc (name t) (applyDefaults (Some (JObj Plain (config old))) t)
      | None \<Rightarrow> put acc (name t) t)"

section \<open>Loading: validation and the empty result\<close>

lemma validate_all_sources:
  "\<forall>p \<in> set ps. (\<exists>r. p = Source r) \<Longrightarrow> validate ps = None"
  by (induction ps rule: validate.induct) auto


lemma load_providers_nothing:
  "\<forall>p \<in> set ps. p = Source (Inr []) \<Longrightarrow> load_providers ts ps = Inr ts"
  by (induction ps) auto

text \<open>
  C4. When every source returns an empty array (and also when the array of sources is
  itself empty), \<open>loadTenants\<close> throws "landlord: No configs were found.", the error of
  kind NoTenantsFound; it never returns an empty collection. The same holds for one
  source given without an array.
\<close>

theorem no_tenants_found:
  assumes "\<forall>p \<in> set ps. p = Source (Inr [])"
  shows "loadTenants (Many ps) = Inl NoConfigsFound \<and> kind_of NoConfigsFound = NoTenantsFound
    \<and> (ps = [p] \<longrightarrow> loadTenants (Single p) = Inl NoConfigsFound)"
proof -
  from assms have v: "validate ps = None"
    by (intro validate_all_sources) auto
  from assms have l: "load_providers empty_tenants ps = Inr empty_tenants"
    by (rule load_providers_nothing)
  show ?thesis
    using v l by (auto simp: loadTenants_def empty_tenants_def)
qed

theorem no_tenants_found_witness:
  "loadTenants (Many [Source (Inr []), Source (Inr [])]) = Inl NoConfigsFound
   \<and> loadTenants (Single (Source (Inr []))) = Inl NoConfigsFound"
  using no_tenants_found [of "[Source (Inr []), Source (Inr [])]"]
        no_tenants_found [of "[Source (Inr [])]" "Source (Inr [])"]
  by simp




section \<open>Attaching and detaching one record\<close>

text \<open>
  C6, as stated, fails when the factory returns a falsy handle: the guard of
  \<open>attachDatabase\<close> is the truthiness of the stored handle, so the second attach
  goes through.
\<close>

theorem double_attach_counterexample:
  "attachDatabase (\<lambda>c. Inr (HNum 0)) (Some (\<lambda>h. None)) JNull
      \<lparr>name = ''t'', config = [], db = HNull, dbFinalizer = None\<rparr>
     = Inr \<lparr>name = ''t'', config = [], db = HNum 0, dbFinalizer = Some (\<lambda>h. None)\<rparr>
   \<and> attachDatabase (\<lambda>c. Inr (HNum 0)) (Some (\<lambda>h. None)) JNull
        \<lparr>name = ''t'', config = [], db = HNum 0, dbFinalizer = Some (\<lambda>h. None)\<rparr>
     \<noteq> Inl DatabaseAlreadyAttached"
  by (simp add: attachDatabase_def)

text \<open>
  C6, amended. On a record that holds no truthy handle, an attach whose factory returns
  \<open>h\<close> followed by a detach whose finalizer returns normally leaves the handle
  \<^verbatim>\<open>null\<close>. An attach on a record that holds a truthy handle fails with "tenant:
  Database already attached.". A detach on a record without a truthy handle calls no
  finalizer and does not fail; on a detached or never attached record it changes
  nothing.
\<close>

theorem attach_detach_round_trip:
  "(\<not> truthy_handle (db t) \<and> fac cfg = Inr h \<and> fin h = None \<longrightarrow>
      (\<exists>t1. attachDatabase fac (Some fin) cfg t = Inr t1
         \<and> db t1 = h
         \<and> fst (detachDatabase t1 calls) = None
         \<and> db (fst (snd (detachDatabase t1 calls))) = HNull))
   \<and> (truthy_handle (db t) \<longrightarrow>
        attachDatabase fac2 fin2 cfg2 t = Inl DatabaseAlreadyAttached
        \<and> kind_of DatabaseAlreadyAttached = AlreadyAttached)
   \<and> (\<not> truthy_handle (db t) \<longrightarrow>
        detachDatabase t calls = (None, t\<lparr>db := HNull, dbFinalizer := None\<rparr>, calls))
   \<and> (db t = HNull \<and> dbFinalizer t = None \<longrightarrow> detachDatabase t calls = (None, t, calls))"
  by (auto simp: attachDatabase_def detachDatabase_def)

theorem attach_detach_round_trip_witness:
  "(\<exists>t1. attachDatabase (\<lambda>c. Inr (HObject 7)) (Some (\<lambda>h. None)) JNull
            \<lparr>name = ''t'', config = [], db = HNull, dbFinalizer = None\<rparr> = Inr t1
         \<and> db t1 = HObject 7
         \<and> fst (detachDatabase t1 []) = None
         \<and> db (fst (snd (detachDatabase t1 []))) = HNull)
   \<and> attachDatabase (\<lambda>c. Inr (HObject 8)) None JNull
        \<lparr>name = ''t'', config = [], db = HObject 7, dbFinalizer = Some (\<lambda>h. None)\<rparr>
        = Inl DatabaseAlreadyAttached
   \<and> detachDatabase \<lparr>name = ''t'', config = [], db = HNull, dbFinalizer = None\<rparr> []
        = (None, \<lparr>name = ''t'', config = [], db = HNull, dbFinalizer = None\<rparr>, [])"
  using attach_detach_round_trip
          [of "\<lparr>name = ''t'', config = [], db = HNull, dbFinalizer = None\<rparr>"
              "\<lambda>c. Inr (HObject 7)" JNull "HObject 7" "\<lambda>h. None" "[]"]
        attach_detach_round_trip
          [of "\<lparr>name = ''t'', config = [], db = HObject 7, dbFinalizer = Some (\<lambda>h. None)\<rparr>"
              "\<lambda>c. Inr (HObject 7)" JNull "HObject 7" "\<lambda>h. None" "[]"
              "\<lambda>c. Inr (HObject 8)" None JNull]
  by simp

text \<open>
  C7, as stated, fails when the finalizer throws: the exception leaves
  \<open>detachDatabase\<close> before the two assignments, and the record stays attached.
\<close>

theorem failing_finalizer_counterexample:
  "detachDatabase \<lparr>name = ''t'', config = [], db = HObject 1,
                   dbFinalizer = Some (\<lambda>h. Some ''connection lost'')\<rparr> []
     = (Some (Thrown ''connection lost''),
        \<lparr>name = ''t'', config = [], db = HObject 1,
         dbFinalizer = Some (\<lambda>h. Some ''connection lost'')\<rparr>,
        [HObject 1])"
  by (simp add: detachDatabase_def)

text \<open>
  C7, amended. On a record with a truthy handle and a finalizer, \<open>detachDatabase\<close>
  calls the finalizer with the handle. When the finalizer returns normally, handle and
  finalizer are cleared. When it throws, the exception reaches the caller (it is not
  swallowed) and the record is left as it was, still attached.
\<close>

theorem detach_outcomes:
  assumes "truthy_handle (db t)" and "dbFinalizer t = Some fin"
  shows "(fin (db t) = None \<longrightarrow>
            detachDatabase t calls = (None, t\<lparr>db := HNull, dbFinalizer := None\<rparr>, calls @ [db t]))
       \<and> (fin (db t) = Some m \<longrightarrow>
            detachDatabase t calls = (Some (Thrown m), t, calls @ [db t]))"
  using assms by (simp add: detachDatabase_def)

theorem detach_outcomes_witness:
  "detachDatabase \<lparr>name = ''t'', config = [], db = HObject 1, dbFinalizer = Some (\<lambda>h. None)\<rparr> [HObject 0]
     = (None, \<lparr>name = ''t'', config = [], db = HNull, dbFinalizer = None\<rparr>, [HObject 0, HObject 1])
   \<and> detachDatabase \<lparr>name = ''t'', config = [], db = HObject 1, dbFinalizer = Some (\<lambda>h. Some ''x'')\<rparr> []
     = (Some (Thrown ''x''),
        \<lparr>name = ''t'', config = [], db = HObject 1, dbFinalizer = Some (\<lambda>h. Some ''x'')\<rparr>, [HObject 1])"
  using detach_outcomes [of "\<lparr>name = ''t'', config = [], db = HObject 1, dbFinalizer = Some (\<lambda>h. None)\<rparr>"
                            "\<lambda>h. None" "[HObject 0]"]
        detach_outcomes [of "\<lparr>name = ''t'', config = [], db = HObject 1, dbFinalizer = Some (\<lambda>h. Some ''x'')\<rparr>"
                            "\<lambda>h. Some ''x''" "[]" "''x''"]
  by simp

text \<open>
  C10. Whether a record is attached is decided by the truthiness of the stored handle.
  When the factory returns a falsy handle, the attach stores it with the finalizer; a
  further attach then succeeds (it does not fail with the already-attached error) and
  overwrites handle and finalizer; and a detach calls no finalizer.
\<close>

theorem falsy_handle_not_attached:
  assumes "\<not> truthy_handle (db t)" and "fac cfg = Inr h" and "\<not> truthy_handle h"
  shows "attachDatabase fac fin cfg t = Inr (t\<lparr>db := h, dbFinalizer := fin\<rparr>)
       \<and> (fac2 cfg2 = Inr h2 \<longrightarrow>
            attachDatabase fac2 fin2 cfg2 (t\<lparr>db := h, dbFinalizer := fin\<rparr>)
              = Inr (t\<lparr>db := h2, dbFinalizer := fin2\<rparr>))
       \<and> attachDatabase fac2 fin2 cfg2 (t\<lparr>db := h, dbFinalizer := fin\<rparr>) \<noteq> Inl DatabaseAlreadyAttached
       \<and> detachDatabase (t\<lparr>db := h, dbFinalizer := fin\<rparr>) calls
           = (None, t\<lparr>db := HNull, dbFinalizer := None\<rparr>, calls)"
  using assms by (auto simp: attachDatabase_def detachDatabase_def split: sum.splits)

theorem falsy_handle_not_attached_witness:
  "attachDatabase (\<lambda>c. Inr (HNum 0)) (Some (\<lambda>h. Some ''never called'')) JNull
      \<lparr>name = ''t'', config = [], db = HNull, dbFinalizer = None\<rparr>
     = Inr \<lparr>name = ''t'', config = [], db = HNum 0, dbFinalizer = Some (\<lambda>h. Some ''never called'')\<rparr>
   \<and> attachDatabase (\<lambda>c. Inr (HObject 3)) None JNull
        \<lparr>name = ''t'', config = [], db = HNum 0, dbFinalizer = Some (\<lambda>h. Some ''never called'')\<rparr>
     = Inr \<lparr>name = ''t'', config = [], db = HObject 3, dbFinalizer = None\<rparr>
   \<and> detachDatabase
        \<lparr>name = ''t'', config = [], db = HNum 0, dbFinalizer = Some (\<lambda>h. Some ''never called'')\<rparr> []
     = (None, \<lparr>name = ''t'', config = [], db = HNull, dbFinalizer = None\<rparr>, [])"
  using falsy_handle_not_attached
          [of "\<lparr>name = ''t'', config = [], db = HNull, dbFinalizer = None\<rparr>"
              "\<lambda>c. Inr (HNum 0)" JNull "HNum 0" "Some (\<lambda>h. Some ''never called'')"
              "\<lambda>c. Inr (HObject 3)" JNull "HObject 3" None "[]"]
  by simp

section \<open>Detaching a whole collection\<close>

lemma detachDatabase_quiet:
  "quiet t \<Longrightarrow> detachDatabase t calls = (None, cleared t, calls @ finalized t)"
  by (auto simp: quiet_def detachDatabase_def cleared_def finalized_def split: option.splits)

lemma detach_all_quiet:
  "\<forall>(k, t) \<in> set ps. quiet t \<Longrightarrow>
   detach_all ps calls = (None, map (\<lambda>(k, t). (k, cleared t)) ps, calls @ concat (map (\<lambda>(k, t). finalized t) ps))"
  by (induction ps arbitrary: calls) (auto simp: detachDatabase_quiet)

lemma detach_all_append:
  "\<forall>(k, t) \<in> set pre. quiet t \<Longrightarrow>
   detach_all (pre @ ps) calls =
     (case detach_all ps (calls @ concat (map (\<lambda>(k, t). finalized t) pre)) of
        (r, ps', calls') \<Rightarrow> (r, map (\<lambda>(k, t). (k, cleared t)) pre @ ps', calls'))"
  by (induction pre arbitrary: calls) (auto simp: detachDatabase_quiet split: prod.splits)

text \<open>
  C8, as stated, fails when a finalizer throws: the exception leaves the \<^verbatim>\<open>forEach\<close>
  of \<open>detachDatabases\<close>, which fails with it, and the records after the failing one
  are not detached.
\<close>

theorem detach_aborts_counterexample:
  "detachDatabases
     \<lparr>own = [(''a'', \<lparr>name = ''a'', config = [], db = HObject 1, dbFinalizer = Some (\<lambda>h. Some ''boom'')\<rparr>),
             (''b'', \<lparr>name = ''b'', config = [], db = HObject 2, dbFinalizer = Some (\<lambda>h. None)\<rparr>)],
      proto = None\<rparr> []
   = (Some (Thrown ''boom''),
      \<lparr>own = [(''a'', \<lparr>name = ''a'', config = [], db = HObject 1, dbFinalizer = Some (\<lambda>h. Some ''boom'')\<rparr>),
              (''b'', \<lparr>name = ''b'', config = [], db = HObject 2, dbFinalizer = Some (\<lambda>h. None)\<rparr>)],
       proto = None\<rparr>,
      [HObject 1])"
  by (simp add: detachDatabases_def detachDatabase_def)

text \<open>
  C8, amended. \<open>detachDatabases\<close> calls \<open>detachDatabase\<close> on every record, in
  order. When no finalizer throws it does not fail and every record ends cleared; on an
  empty collection it does nothing. When a finalizer throws, the exception reaches the
  caller: the records before the failing one are cleared, the failing one and all
  records after it are left as they were.
\<close>

theorem detachDatabases_outcomes:
  "((\<forall>(k, t) \<in> set (own ts). quiet t) \<longrightarrow>
      detachDatabases ts calls =
        (None, ts\<lparr>own := map (\<lambda>(k, t). (k, cleared t)) (own ts)\<rparr>,
         calls @ concat (map (\<lambda>(k, t). finalized t) (own ts))))
   \<and> (own ts = [] \<longrightarrow> detachDatabases ts calls = (None, ts, calls))
   \<and> ((\<forall>(k, t) \<in> set pre. quiet t) \<and> own ts = pre @ (k, t) # post
        \<and> truthy_handle (db t) \<and> dbFinalizer t = Some fin \<and> fin (db t) = Some m \<longrightarrow>
      detachDatabases ts calls =
        (Some (Thrown m), ts\<lparr>own := map (\<lambda>(k, t). (k, cleared t)) pre @ (k, t) # post\<rparr>,
         calls @ concat (map (\<lambda>(k, t). finalized t) pre) @ [db t]))"
proof (intro conjI impI)
  assume "\<forall>(k, t) \<in> set (own ts). quiet t"
  then show "detachDatabases ts calls =
        (None, ts\<lparr>own := map (\<lambda>(k, t). (k, cleared t)) (own ts)\<rparr>,
         calls @ concat (map (\<lambda>(k, t). finalized t) (own ts)))"
    by (simp add: detachDatabases_def detach_all_quiet)
next
  assume "own ts = []"
  then show "detachDatabases ts calls = (None, ts, calls)"
    by (simp add: detachDatabases_def)
next
  assume a: "(\<forall>(k, t) \<in> set pre. quiet t) \<and> own ts = pre @ (k, t) # post
        \<and> truthy_handle (db t) \<and> dbFinalizer t = Some fin \<and> fin (db t) = Some m"
  then have "detachDatabase t c = (Some (Thrown m), t, c @ [db t])" for c
    by (simp add: detachDatabase_def)
  with a show "detachDatabases ts calls =
        (Some (Thrown m), ts\<lparr>own := map (\<lambda>(k, t). (k, cleared t)) pre @ (k, t) # post\<rparr>,
         calls @ concat (map (\<lambda>(k, t). finalized t) pre) @ [db t])"
    by (simp add: detachDatabases_def detach_all_append)
qed

theorem detachDatabases_outcomes_witness:
  "detachDatabases
     \<lparr>own = [(''a'', \<lparr>name = ''a'', config = [], db = HObject 1, dbFinalizer = Some (\<lambda>h. None)\<rparr>),
             (''b'', \<lparr>name = ''b'', config = [], db = HNull, dbFinalizer = None\<rparr>)],
      proto = None\<rparr> []
   = (None,
      \<lparr>own = [(''a'', \<lparr>name = ''a'', config = [], db = HNull, dbFinalizer = None\<rparr>),
              (''b'', \<lparr>name = ''b'', config = [], db = HNull, dbFinalizer = None\<rparr>)],
       proto = None\<rparr>,
      [HObject 1])
   \<and> detachDatabases empty_tenants [] = (None, empty_tenants, [])
   \<and> detachDatabases
     \<lparr>own = [(''a'', \<lparr>name = ''a'', config = [], db = HObject 1, dbFinalizer = Some (\<lambda>h. None)\<rparr>),
             (''b'', \<lparr>name = ''b'', config = [], db = HObject 2, dbFinalizer = Some (\<lambda>h. Some ''boom'')\<rparr>),
             (''c'', \<lparr>name = ''c'', config = [], db = HObject 3, dbFinalizer = Some (\<lambda>h. None)\<rparr>)],
      proto = None\<rparr> []
   = (Some (Thrown ''boom''),
      \<lparr>own = [(''a'', \<lparr>name = ''a'', config = [], db = HNull, dbFinalizer = None\<rparr>),
             (''b'', \<lparr>name = ''b'', config = [], db = HObject 2, dbFinalizer = Some (\<lambda>h. Some ''boom'')\<rparr>),
             (''c'', \<lparr>name = ''c'', config = [], db = HObject 3, dbFinalizer = Some (\<lambda>h. None)\<rparr>)],
       proto = None\<rparr>,
      [HObject 1, HObject 2])"
  using detachDatabases_outcomes
     [of "\<lparr>own = [(''a'', \<lparr>name = ''a'', config = [], db = HObject 1, dbFinalizer = Some (\<lambda>h. None)\<rparr>),
             (''b'', \<lparr>name = ''b'', config = [], db = HNull, dbFinalizer = None\<rparr>)],
      proto = None\<rparr>" "[]"]
    detachDatabases_outcomes [of empty_tenants "[]"]
    detachDatabases_outcomes
     [of "\<lparr>own = [(''a'', \<lparr>name = ''a'', config = [], db = HObject 1, dbFinalizer = Some (\<lambda>h. None)\<rparr>),
             (''b'', \<lparr>name = ''b'', config = [], db = HObject 2, dbFinalizer = Some (\<lambda>h. Some ''boom'')\<rparr>),
             (''c'', \<lparr>name = ''c'', config = [], db = HObject 3, dbFinalizer = Some (\<lambda>h. None)\<rparr>)],
      proto = None\<rparr>" "[]"
      "[(''a'', \<lparr>name = ''a'', config = [], db = HObject 1, dbFinalizer = Some (\<lambda>h. None)\<rparr>)]"
      "''b''" "\<lparr>name = ''b'', config = [], db = HObject 2, dbFinalizer = Some (\<lambda>h. Some ''boom'')\<rparr>"
      "[(''c'', \<lparr>name = ''c'', config = [], db = HObject 3, dbFinalizer = Some (\<lambda>h. None)\<rparr>)]"
      "\<lambda>h. Some ''boom''" "''boom''"]
  by (simp add: quiet_def cleared_def finalized_def empty_tenants_def)

section \<open>The merge on property lists\<close>

lemma assign_keys:
  "map fst (assign a k v) = (if k \<in> fst ` set a then map fst a else map fst a @ [k])"
  by (induction a k v rule: assign.induct) (auto simp: rev_image_eqI)

lemma assign_key_set: "fst ` set (assign a k v) = insert k (fst ` set a)"
proof -
  have "set (map fst (assign a k v)) = insert k (set (map fst a))"
    unfolding assign_keys by auto
  then show ?thesis by simp
qed

lemma assign_map_of: "map_of (assign a k v) = (map_of a)(k \<mapsto> v)"
  by (induction a) (auto simp: fun_eq_iff)


lemma merge_props_keys:
  "distinct (map fst s) \<Longrightarrow>
   map fst (merge_props a s) = map fst a @ filter (\<lambda>k. k \<notin> fst ` set a) (map fst s)"
proof (induction s arbitrary: a)
  case Nil
  then show ?case by simp
next
  case (Cons p s)
  obtain k sv where p: "p = (k, sv)" by (cases p)
  from Cons.prems p have ks: "k \<notin> fst ` set s" and ds: "distinct (map fst s)" by auto
  define a' where "a' = assign a k (merge_value (map_of a k) sv)"
  have flt: "filter (\<lambda>x. x \<notin> fst ` set a') (map fst s)
      = filter (\<lambda>x. x \<notin> fst ` set a) (map fst s)"
    using ks by (intro filter_cong) (auto simp: a'_def assign_key_set)
  have "map fst (merge_props a (p # s)) = map fst (merge_props a' s)"
    by (simp add: p a'_def)
  also have "\<dots> = map fst a' @ filter (\<lambda>x. x \<notin> fst ` set a) (map fst s)"
    using Cons.IH [OF ds, of a'] flt by simp
  also have "\<dots> = map fst a @ filter (\<lambda>x. x \<notin> fst ` set a) (map fst (p # s))"
    by (simp add: p a'_def assign_keys)
  finally show ?case .
qed

lemma merge_props_map_of:
  "distinct (map fst s) \<Longrightarrow>
   map_of (merge_props a s) k =
     (case map_of s k of
        Some sv \<Rightarrow> Some (merge_value (map_of a k) sv)
      | None \<Rightarrow> map_of a k)"
proof (induction s arbitrary: a)
  case Nil
  then show ?case by simp
next
  case (Cons p s)
  obtain k' sv where p: "p = (k', sv)" by (cases p)
  from Cons.prems p have ks: "map_of s k' = None" and ds: "distinct (map fst s)"
    by (auto simp: map_of_eq_None_iff)
  show ?case
    using Cons.IH [OF ds] ks by (auto simp: p assign_map_of split: option.splits)
qed


lemma props_eqI:
  "map fst xs = map fst ys \<Longrightarrow> distinct (map fst xs) \<Longrightarrow> map_of xs = map_of ys \<Longrightarrow> xs = ys"
proof (induction xs arbitrary: ys)
  case Nil
  then show ?case by simp
next
  case (Cons x xs)
  then obtain y ys' where ys: "ys = y # ys'" by (cases ys) auto
  obtain k v where x: "x = (k, v)" by (cases x)
  obtain k' v' where y: "y = (k', v')" by (cases y)
  from Cons.prems ys x y have kk: "k' = k" and keys: "map fst xs = map fst ys'" by auto
  from Cons.prems(3) have "map_of (x # xs) k = map_of ys k" by (rule fun_cong)
  then have vv: "v' = v" by (simp add: ys x y kk)
  have "map_of xs j = map_of ys' j" for j
  proof (cases "j = k")
    case True
    from Cons.prems(2) x have "k \<notin> set (map fst xs)" by simp
    moreover from this keys have "k \<notin> set (map fst ys')" by simp
    ultimately have "map_of xs k = None" and "map_of ys' k = None"
      by (simp_all add: map_of_eq_None_iff)
    then show ?thesis by (simp add: True)
  next
    case False
    from Cons.prems(3) have "map_of (x # xs) j = map_of ys j" by (rule fun_cong)
    with False show ?thesis by (simp add: ys x y kk)
  qed
  then have "map_of xs = map_of ys'" by (simp add: fun_eq_iff)
  with Cons.IH [OF keys] Cons.prems(2) have "xs = ys'" by simp
  then show ?case by (simp add: ys x y kk vv)
qed

lemma merge_props_unchanged:
  assumes d: "distinct (map fst r)"
    and keys: "map fst r = map fst a @ rest"
    and vals: "\<And>k rv. map_of r k = Some rv \<Longrightarrow> merge_value (map_of a k) rv = rv"
  shows "merge_props a r = r"
proof (rule props_eqI)
  from d keys have disj: "\<forall>k \<in> set rest. k \<notin> fst ` set a" by auto
  then have "filter (\<lambda>k. k \<notin> fst ` set a) rest = rest"
    by (simp add: filter_id_conv)
  then show k: "map fst (merge_props a r) = map fst r"
    by (simp add: merge_props_keys [OF d] keys)
  from k d show "distinct (map fst (merge_props a r))" by simp
  show "map_of (merge_props a r) = map_of r"
  proof
    fix k
    show "map_of (merge_props a r) k = map_of r k"
    proof (cases "map_of r k")
      case None
      then have "k \<notin> fst ` set r" by (simp add: map_of_eq_None_iff)
      then have "k \<notin> set (map fst r)" by simp
      then have "k \<notin> fst ` set a" unfolding keys by simp
      then have "map_of a k = None" by (simp add: map_of_eq_None_iff)
      with None show ?thesis by (simp add: merge_props_map_of [OF d])
    next
      case (Some rv)
      with vals [OF Some] show ?thesis by (simp add: merge_props_map_of [OF d])
    qed
  qed
qed



section \<open>The merge on well-formed values\<close>


lemma merge_value_clone: "wf_json v \<Longrightarrow> merge_value None v = v"
proof (induction v)
  case (JObj kind ps)
  have "merge_props [] ps = ps"
  proof (rule merge_props_unchanged [where rest = "map fst ps"])
    from JObj.prems show "distinct (map fst ps)" by simp
    show "map fst ps = map fst [] @ map fst ps" by simp
    fix k rv
    assume m: "map_of ps k = Some rv"
    then have mem: "(k, rv) \<in> set ps" by (rule map_of_SomeD)
    with JObj.prems have "wf_json rv" by auto
    with JObj.IH [OF mem, of rv] show "merge_value (map_of [] k) rv = rv" by simp
  qed
  then show ?case by (cases kind) simp_all
qed simp_all








section \<open>Defaults\<close>





lemma merge_props_clone: "wf_props ps \<Longrightarrow> merge_props [] ps = ps"
  using merge_value_clone [of "JObj Plain ps"] by (simp add: wf_props_def)


lemma lodash_merge_undefined: "wf_props c \<Longrightarrow> lodash_merge None c = c"
  by (simp add: lodash_merge_def merge_source_def merge_props_clone)



section \<open>The collection while it is loaded\<close>

lemma put_keys:
  "map fst (put a k v) = (if k \<in> fst ` set a then map fst a else map fst a @ [k])"
  by (induction a k v rule: put.induct) (auto simp: rev_image_eqI)

lemma put_map_of: "map_of (put a k v) = (map_of a)(k \<mapsto> v)"
  by (induction a) (auto simp: fun_eq_iff)





lemma default_config_own:
  "map_of (own ts) ''_default_'' = Some d \<Longrightarrow> default_config ts = Inr (Some (JObj Plain (config d)))"
  by (simp add: default_config_def js_get_def)

lemma apply_default_own:
  assumes "map_of (own ts) ''_default_'' = Some d"
  shows "apply_default ts =
    Inr (ts\<lparr>own := map (\<lambda>(k, t). (k, applyDefaults (Some (JObj Plain (config d))) t)) (own ts)\<rparr>)"
  using default_config_own [OF assms] by (simp add: apply_default_def)





section \<open>Several sources\<close>

lemma add_tenant_merge_into:
  assumes "proto ts = None" and "name t \<noteq> ''__proto__''" and "wf_props (config t)"
  shows "add_tenant ts t = Inr (ts\<lparr>own := merge_into (own ts) t\<rparr>)"
proof (cases "map_of (own ts) (name t)")
  case (Some old)
  then show ?thesis
    by (simp add: add_tenant_def js_get_def js_set_def merge_into_def)
next
  case None
  have same: "applyDefaults None t = t"
    using assms(3) by (simp add: applyDefaults_def lodash_merge_undefined)
  show ?thesis
    using None assms(1,2) same
    by (auto simp: add_tenant_def js_get_def js_set_def merge_into_def object_member_def)
qed

lemma add_tenants_merge_into:
  assumes "proto ts = None" and "\<forall>t \<in> set l. name t \<noteq> ''__proto__'' \<and> wf_props (config t)"
  shows "add_tenants ts l = Inr (ts\<lparr>own := foldl merge_into (own ts) l\<rparr>)"
  using assms
proof (induction l arbitrary: ts)
  case Nil
  then show ?case by simp
next
  case (Cons t l)
  from Cons.prems have step: "add_tenant ts t = Inr (ts\<lparr>own := merge_into (own ts) t\<rparr>)"
    by (intro add_tenant_merge_into) auto
  have "add_tenants (ts\<lparr>own := merge_into (own ts) t\<rparr>) l
      = Inr (ts\<lparr>own := merge_into (own ts) t\<rparr>\<lparr>own := foldl merge_into (merge_into (own ts) t) l\<rparr>)"
    using Cons.IH [of "ts\<lparr>own := merge_into (own ts) t\<rparr>"] Cons.prems by simp
  with step show ?case by simp
qed

lemma load_providers_merge_into:
  assumes "proto ts = None"
    and "\<forall>l \<in> set ls. \<forall>t \<in> set l. name t \<noteq> ''__proto__'' \<and> wf_props (config t)"
  shows "load_providers ts (map (\<lambda>l. Source (Inr l)) ls)
       = Inr (ts\<lparr>own := foldl merge_into (own ts) (concat ls)\<rparr>)"
  using assms
proof (induction ls arbitrary: ts)
  case Nil
  then show ?case by simp
next
  case (Cons l ls)
  from Cons.prems have step: "add_tenants ts l = Inr (ts\<lparr>own := foldl merge_into (own ts) l\<rparr>)"
    by (intro add_tenants_merge_into) auto
  have "load_providers (ts\<lparr>own := foldl merge_into (own ts) l\<rparr>) (map (\<lambda>l. Source (Inr l)) ls)
      = Inr (ts\<lparr>own := foldl merge_into (own ts) l\<rparr>
               \<lparr>own := foldl merge_into (foldl merge_into (own ts) l) (concat ls)\<rparr>)"
    using Cons.IH [of "ts\<lparr>own := foldl merge_into (own ts) l\<rparr>"] Cons.prems by simp
  with step show ?case by simp
qed

lemma merge_into_keys:
  "map fst (merge_into acc t) =
     (if name t \<in> fst ` set acc then map fst acc else map fst acc @ [name t])"
  by (simp add: merge_into_def put_keys split: option.splits)

lemma foldl_merge_into_keys:
  "set (map fst (foldl merge_into acc l)) = fst ` set acc \<union> name ` set l"
proof (induction l arbitrary: acc)
  case Nil
  then show ?case by simp
next
  case (Cons t l)
  have "set (map fst (merge_into acc t)) = insert (name t) (fst ` set acc)"
    unfolding merge_into_keys by auto
  then have "fst ` set (merge_into acc t) = insert (name t) (fst ` set acc)" by simp
  with Cons.IH [of "merge_into acc t"] show ?case by auto
qed

lemma foldl_merge_into_distinct:
  "distinct (map fst acc) \<Longrightarrow> distinct (map fst (foldl merge_into acc l))"
proof (induction l arbitrary: acc)
  case Nil
  then show ?case by simp
next
  case (Cons t l)
  from Cons.prems have "distinct (map fst (merge_into acc t))"
    unfolding merge_into_keys by auto
  from Cons.IH [OF this] show ?case by simp
qed

lemma collected_size:
  "length (foldl merge_into [] l) = card (name ` set l)"
proof -
  have "length (foldl merge_into [] l) = length (map fst (foldl merge_into [] l))" by simp
  also have "\<dots> = card (set (map fst (foldl merge_into [] l)))"
    using foldl_merge_into_distinct [of "[]" l] by (simp add: distinct_card del: set_map length_map)
  also have "\<dots> = card (name ` set l)"
    unfolding foldl_merge_into_keys by simp
  finally show ?thesis .
qed

lemma apply_default_length:
  assumes "proto ts = None"
  shows "\<exists>ts'. apply_default ts = Inr ts' \<and> map fst (own ts') = map fst (own ts) \<and> proto ts' = None"
proof (cases "map_of (own ts) ''_default_''")
  case None
  with assms have "apply_default ts = Inr ts"
    by (simp add: apply_default_def default_config_def js_get_def object_member_def
        object_prototype_functions_def)
  with assms show ?thesis by simp
next
  case (Some d)
  from apply_default_own [OF Some] assms show ?thesis
    by (simp add: comp_def case_prod_unfold)
qed

lemma loadTenants_one_record_per_name:
  assumes ok: "\<forall>l \<in> set ls. \<forall>t \<in> set l. name t \<noteq> ''__proto__'' \<and> wf_props (config t)"
    and some: "concat ls \<noteq> []"
  shows "\<exists>ts. loadTenants (Many (map (\<lambda>l. Source (Inr l)) ls)) = Inr ts
      \<and> distinct (map fst (own ts))
      \<and> set (map fst (own ts)) = name ` set (concat ls)
      \<and> length (own ts) = card (name ` set (concat ls))"
proof -
  let ?ps = "map (\<lambda>l. Source (Inr l)) ls"
  let ?own = "foldl merge_into [] (concat ls)"
  have v: "validate ?ps = None"
    by (rule validate_all_sources) auto
  have l: "load_providers empty_tenants ?ps = Inr (empty_tenants\<lparr>own := ?own\<rparr>)"
    using load_providers_merge_into [of empty_tenants ls] ok by (simp add: empty_tenants_def)
  have keys: "set (map fst ?own) = name ` set (concat ls)"
    unfolding foldl_merge_into_keys by simp
  with some have ne: "?own \<noteq> []" by (cases ?own) auto
  have d: "distinct (map fst ?own)"
    by (rule foldl_merge_into_distinct) simp
  obtain ts' where a: "apply_default (empty_tenants\<lparr>own := ?own\<rparr>) = Inr ts'"
    and k: "map fst (own ts') = map fst ?own"
    using apply_default_length [of "empty_tenants\<lparr>own := ?own\<rparr>"]
    by (auto simp: empty_tenants_def)
  have "loadTenants (Many ?ps) = Inr ts'"
    using v l ne a by (simp add: loadTenants_def)
  moreover have "length (own ts') = card (name ` set (concat ls))"
    using k collected_size [of "concat ls"] by (metis length_map)
  moreover from k d have "distinct (map fst (own ts'))" by simp
  moreover from k keys have "set (map fst (own ts')) = name ` set (concat ls)" by simp
  ultimately show ?thesis by blast
qed

lemma merge_direction_example:
  "loadTenants (Many
     [Source (Inr [\<lparr>name = ''t'', config = [(''x'', JNum 1)], db = HNull, dbFinalizer = None\<rparr>]),
      Source (Inr [\<lparr>name = ''t'', config = [(''x'', JNum 2), (''y'', JNum 3)], db = HNull,
                    dbFinalizer = None\<rparr>])])
   = Inr \<lparr>own = [(''t'', \<lparr>name = ''t'', config = [(''x'', JNum 2), (''y'', JNum 3)], db = HNull,
                          dbFinalizer = None\<rparr>)],
          proto = None\<rparr>"
  by (simp add: loadTenants_def empty_tenants_def add_tenant_def js_get_def js_set_def
      applyDefaults_def lodash_merge_def merge_source_def apply_default_def default_config_def
      object_member_def object_prototype_functions_def)

text \<open>
  C1 at a source that yields one tenant named \<^verbatim>\<open>__proto__\<close>: the name is \<^verbatim>\<open>in\<close> the empty
  collection, the assignment replaces the collection's prototype instead of adding a
  key, and \<open>loadTenants\<close> fails with "landlord: No configs were found." although
  the sources produced a tenant.
\<close>

theorem proto_name_lost:
  "loadTenants (Many [Source (Inr [\<lparr>name = ''__proto__'', config = [(''x'', JNum 1)],
                                    db = HNull, dbFinalizer = None\<rparr>])])
     = Inl NoConfigsFound"
  by (simp add: loadTenants_def empty_tenants_def add_tenant_def js_get_def js_set_def
      applyDefaults_def lodash_merge_def merge_source_def)

section \<open>Binding a request\<close>

text \<open>
  C3 at a request whose host is \<^verbatim>\<open>constructor\<close>, with \<^verbatim>\<open>localhost\<close> the only tenant:
  \<^verbatim>\<open>tenants[tenant]\<close> is the inherited \<^verbatim>\<open>Object.prototype.constructor\<close>, which is truthy, so
  the middleware sets it as \<^verbatim>\<open>req.tenant\<close> and goes on to the next handler; no 403 is
  signalled.
\<close>

theorem inherited_key_bound:
  "bindTenantToRequest
     \<lparr>own = [(''localhost'', \<lparr>name = ''localhost'', config = [], db = HNull, dbFinalizer = None\<rparr>)],
      proto = None\<rparr>
     \<lparr>path = ''tenant'', tenantHeader = None\<rparr>
     \<lparr>hostname = Some ''constructor'', header = (\<lambda>h. None), decorations = []\<rparr>
   = Next \<lparr>hostname = Some ''constructor'', header = (\<lambda>h. None),
           decorations = [(''tenant'', VFunction ''constructor'')]\<rparr>"
  by (simp add: bindTenantToRequest_def lookup_key_def property_key_def js_get_def
      object_member_def object_prototype_functions_def)

lemma bind_own:
  assumes "map_of (own ts) (property_key (lookup_key opts req)) = Some t"
  shows "bindTenantToRequest ts opts req
       = Next (req\<lparr>decorations := AList.update (path opts) (VTenant t) (decorations req)\<rparr>)"
  using assms by (simp add: bindTenantToRequest_def js_get_def)

lemma bind_unknown:
  assumes "map_of (own ts) (property_key (lookup_key opts req)) = None"
    and "proto ts = None"
    and "property_key (lookup_key opts req) \<notin> set (''__proto__'' # object_prototype_functions)"
  shows "bindTenantToRequest ts opts req = NextError 403 ''Invalid tenant.''"
  using assms by (simp add: bindTenantToRequest_def js_get_def object_member_def)

end
